theory Spec2Isabelle
  imports Complex_Main "HOL-Library.Sublist" "HOL-Library.AList"
begin

section \<open>Python strings\<close>

text \<open>
  A Python \<open>str\<close> is modelled as a \<open>string\<close> whose characters are the code points
  below 256.  The functions of this section are the methods of \<open>str\<close> that
  \<open>runner/ext/namelist.py\<close> calls, restricted to that range.
\<close>

abbreviation SQ :: char where "SQ \<equiv> CHR 0x27"
abbreviation DQ :: char where "DQ \<equiv> CHR 0x22"
abbreviation NL :: char where "NL \<equiv> CHR 0x0A"

definition isspace :: "char \<Rightarrow> bool" where
  \<comment> \<open>\<open>str.isspace\<close>: the white space of \<open>strip()\<close> and \<open>split()\<close>.\<close>
  "isspace c = (let n = (of_char c :: nat)
                in (9 \<le> n \<and> n \<le> 13) \<or> (28 \<le> n \<and> n \<le> 32) \<or> n = 133 \<or> n = 160)"

definition lstrip :: "string \<Rightarrow> string" where
  "lstrip s = dropWhile isspace s"

definition rstrip :: "string \<Rightarrow> string" where
  "rstrip s = rev (dropWhile isspace (rev s))"

definition strip :: "string \<Rightarrow> string" where
  "strip s = rstrip (lstrip s)"

definition lower_char :: "char \<Rightarrow> char" where
  \<comment> \<open>\<open>str.lower\<close> on one character: A-Z and the upper-case letters of Latin-1.\<close>
  "lower_char c = (let n = (of_char c :: nat)
                   in if (65 \<le> n \<and> n \<le> 90) \<or> (192 \<le> n \<and> n \<le> 222 \<and> n \<noteq> 215)
                      then char_of (n + 32) else c)"

definition lower :: "string \<Rightarrow> string" where
  "lower s = map lower_char s"

fun join :: "string \<Rightarrow> string list \<Rightarrow> string" where
  "join sep [] = []"
| "join sep [x] = x"
| "join sep (x # y # ys) = x @ sep @ join sep (y # ys)"

function py_split :: "string \<Rightarrow> string \<Rightarrow> string list" where
  \<comment> \<open>\<open>s.split(sep)\<close> for a non-empty \<open>sep\<close>; the callers raise on the empty one.\<close>
  "py_split sep [] = [[]]"
| "py_split sep (x # xs) =
     (if sep \<noteq> [] \<and> prefix sep (x # xs)
      then [] # py_split sep (drop (length sep) (x # xs))
      else (let r = py_split sep xs in (x # hd r) # tl r))"
  by pat_completeness auto
termination
  by (relation "measure (\<lambda>(sep, s). length s)") (auto simp: neq_Nil_conv)

function split_ws :: "string \<Rightarrow> string list" where
  \<comment> \<open>\<open>s.split()\<close>: the maximal runs of characters that are not white space.\<close>
  "split_ws s =
     (let t = dropWhile isspace s
      in if t = [] then []
         else takeWhile (\<lambda>c. \<not> isspace c) t # split_ws (dropWhile (\<lambda>c. \<not> isspace c) t))"
  by pat_completeness auto
termination
proof (relation "measure length")
  show "wf (measure length)" by simp
next
  fix s t :: string
  assume t: "t = dropWhile isspace s" and ne: "t \<noteq> []"
  have "\<not> isspace (hd t)"
    using t ne hd_dropWhile by metis
  then have "length (dropWhile (\<lambda>c. \<not> isspace c) t) < length t"
    using ne by (cases t) (auto simp: less_Suc_eq_le length_dropWhile_le)
  moreover have "length t \<le> length s"
    using t by (simp add: length_dropWhile_le)
  ultimately show "(dropWhile (\<lambda>c. \<not> isspace c) t, s) \<in> measure length"
    by simp
qed

declare split_ws.simps [simp del]

definition index :: "string \<Rightarrow> char \<Rightarrow> nat" where
  \<comment> \<open>\<open>s.index(c)\<close> where \<open>c in s\<close> has been checked.\<close>
  "index s c = length (takeWhile (\<lambda>x. x \<noteq> c) s)"

definition slice_inner :: "string \<Rightarrow> string" where
  \<comment> \<open>\<open>s[1:-1]\<close>\<close>
  "slice_inner s = butlast (drop 1 s)"

definition ljust :: "nat \<Rightarrow> string \<Rightarrow> string" where
  \<comment> \<open>\<open>"{:n}".format(s)\<close>: a string is padded on the right, never cut.\<close>
  "ljust n s = s @ replicate (n - length s) CHR '' ''"


section \<open>Python numbers: \<open>int()\<close>, \<open>float()\<close> and \<open>repr\<close>\<close>

definition is_digit :: "char \<Rightarrow> bool" where
  "is_digit c = (let n = (of_char c :: nat) in 48 \<le> n \<and> n \<le> 57)"

definition digit_val :: "char \<Rightarrow> nat" where
  "digit_val c = of_char c - 48"

definition nat_of_digits :: "string \<Rightarrow> nat" where
  "nat_of_digits ds = foldl (\<lambda>a c. 10 * a + digit_val c) 0 ds"

definition num_space :: "char \<Rightarrow> bool" where
  \<comment> \<open>The white space that \<open>int()\<close> and \<open>float()\<close> skip around a literal: C's
      \<open>isspace\<close>, and the white space above code point 127.\<close>
  "num_space c = (let n = (of_char c :: nat)
                  in (9 \<le> n \<and> n \<le> 13) \<or> n = 32 \<or> n = 133 \<or> n = 160)"

definition num_strip :: "string \<Rightarrow> string" where
  "num_strip s = rev (dropWhile num_space (rev (dropWhile num_space s)))"

fun underscores_ok :: "char option \<Rightarrow> string \<Rightarrow> bool" where
  \<comment> \<open>Every \<open>_\<close> of a numeric literal stands between two digits; the first argument
      is the character before.\<close>
  "underscores_ok prev [] = True"
| "underscores_ok prev (c # cs) =
     (if c = CHR ''_''
      then (case prev of None \<Rightarrow> False | Some p \<Rightarrow> is_digit p)
           \<and> (case cs of [] \<Rightarrow> False | d # _ \<Rightarrow> is_digit d)
           \<and> underscores_ok (Some c) cs
      else underscores_ok (Some c) cs)"

definition remove_underscores :: "string \<Rightarrow> string option" where
  "remove_underscores s =
     (if underscores_ok None s then Some (filter (\<lambda>c. c \<noteq> CHR ''_'') s) else None)"

definition split_sign :: "string \<Rightarrow> bool \<times> string" where
  \<comment> \<open>An optional sign: whether it is \<open>-\<close>, and the rest.\<close>
  "split_sign s =
     (case s of
        [] \<Rightarrow> (False, [])
      | c # r \<Rightarrow> if c = CHR ''-'' then (True, r) else if c = CHR ''+'' then (False, r)
                 else (False, s))"

definition py_int :: "string \<Rightarrow> int option" where
  \<comment> \<open>\<open>int(s)\<close>: \<open>None\<close> where Python raises \<open>ValueError\<close>.\<close>
  "py_int s =
     (let (neg, body) = split_sign (num_strip s)
      in case remove_underscores body of
           None \<Rightarrow> None
         | Some ds \<Rightarrow>
             if ds \<noteq> [] \<and> list_all is_digit ds
             then Some (if neg then - int (nat_of_digits ds) else int (nat_of_digits ds))
             else None)"

datatype pyfloat = Finite rat | PosInf | NegInf | NaN

text \<open>
  A finite float is modelled by the exact value of its decimal literal; the rounding of
  \<open>float()\<close> to binary64 is not modelled, so only equalities between floats are meaningful.
\<close>

definition parse_exponent :: "string \<Rightarrow> int option" where
  \<comment> \<open>What follows the mantissa: nothing, or \<open>e\<close>, an optional sign and digits.\<close>
  "parse_exponent s =
     (case s of
        [] \<Rightarrow> Some 0
      | c # r \<Rightarrow>
          if c = CHR ''e'' \<or> c = CHR ''E''
          then (let (neg, ds) = split_sign r
                in if ds \<noteq> [] \<and> list_all is_digit ds
                   then Some (if neg then - int (nat_of_digits ds) else int (nat_of_digits ds))
                   else None)
          else None)"

definition parse_decimal :: "string \<Rightarrow> rat option" where
  \<comment> \<open>digits, an optional point and digits, an optional exponent; at least one digit
      in the mantissa.\<close>
  "parse_decimal s =
     (let ip = takeWhile is_digit s; r1 = dropWhile is_digit s;
          (fp, r2) = (case r1 of
                        [] \<Rightarrow> ([], r1)
                      | c # r \<Rightarrow> if c = CHR ''.'' then (takeWhile is_digit r, dropWhile is_digit r)
                                 else ([], r1))
      in if ip = [] \<and> fp = [] then None
         else case parse_exponent r2 of
                None \<Rightarrow> None
              | Some e \<Rightarrow>
                  (let m = of_nat (nat_of_digits (ip @ fp)) :: rat;
                       x = e - int (length fp)
                   in Some (if 0 \<le> x then m * 10 ^ nat x else m / 10 ^ nat (- x))))"

definition py_float :: "string \<Rightarrow> pyfloat option" where
  \<comment> \<open>\<open>float(s)\<close>: \<open>None\<close> where Python raises \<open>ValueError\<close>.\<close>
  "py_float s =
     (case remove_underscores (num_strip s) of
        None \<Rightarrow> None
      | Some t \<Rightarrow>
          (let (neg, body) = split_sign t
           in if lower body = ''inf'' \<or> lower body = ''infinity''
              then Some (if neg then NegInf else PosInf)
              else if lower body = ''nan'' then Some NaN
              else case parse_decimal body of
                     None \<Rightarrow> None
                   | Some q \<Rightarrow> Some (Finite (if neg then - q else q))))"

definition digit_char :: "nat \<Rightarrow> char" where
  "digit_char d = char_of (48 + d)"

function show_nat :: "nat \<Rightarrow> string" where
  "show_nat n = (if n < 10 then [digit_char n] else show_nat (n div 10) @ [digit_char (n mod 10)])"
  by pat_completeness auto
termination
  by (relation "measure id") auto

declare show_nat.simps [simp del]

definition show_int :: "int \<Rightarrow> string" where
  \<comment> \<open>\<open>repr\<close> of an \<open>int\<close>\<close>
  "show_int i = (if i < 0 then CHR ''-'' # show_nat (nat (- i)) else show_nat (nat i))"

definition hex_digit :: "nat \<Rightarrow> char" where
  "hex_digit d = (if d < 10 then char_of (48 + d) else char_of (87 + d))"

definition printable :: "char \<Rightarrow> bool" where
  \<comment> \<open>\<open>str.isprintable\<close> below code point 256\<close>
  "printable c = (let n = (of_char c :: nat)
                  in (32 \<le> n \<and> n \<le> 126) \<or> (161 \<le> n \<and> n \<noteq> 173))"

definition repr_char :: "char \<Rightarrow> char \<Rightarrow> string" where
  \<comment> \<open>One character of \<open>repr\<close> of a \<open>str\<close> written between quotes \<open>q\<close>.\<close>
  "repr_char q c =
     (if c = q \<or> c = CHR 0x5C then [CHR 0x5C, c]
      else if c = CHR 0x09 then [CHR 0x5C, CHR ''t'']
      else if c = NL then [CHR 0x5C, CHR ''n'']
      else if c = CHR 0x0D then [CHR 0x5C, CHR ''r'']
      else if printable c then [c]
      else [CHR 0x5C, CHR ''x'', hex_digit (of_char c div 16), hex_digit (of_char c mod 16)])"

definition str_repr :: "string \<Rightarrow> string" where
  \<comment> \<open>\<open>repr\<close> of a \<open>str\<close>: single quotes, unless the string holds one and no double
      quote.\<close>
  "str_repr s =
     (let q = (if SQ \<in> set s \<and> DQ \<notin> set s then DQ else SQ)
      in q # concat (map (repr_char q) s) @ [q])"


section \<open>Values and errors\<close>

datatype pyvalue =
    VInt int
  | VFloat pyfloat
  | VBool bool
  | VStr string
  | VList "pyvalue list"

text \<open>
  The exceptions the module raises, each with its message.  \<open>MissingParameters\<close> is the
  \<open>Exception\<close> of \<open>param_check_all\<close>: its message joins a set in an order Python does not
  fix, so the model keeps the set of missing keys and the list of paths the message is
  built from.
\<close>

datatype pyerror =
    ValueError string
  | IndexError string
  | FileNotFoundError string
  | MissingParameters "string set" "string list"

definition unpack_error :: "nat \<Rightarrow> pyerror" where
  \<comment> \<open>\<open>a, b = xs\<close> where \<open>xs\<close> has \<open>n\<close> elements and \<open>n\<close> is not 2\<close>
  "unpack_error n =
     (if n < 2
      then ValueError (''not enough values to unpack (expected 2, got '' @ show_nat n @ '')'')
      else ValueError ''too many values to unpack (expected 2)'')"

definition int_error :: "string \<Rightarrow> pyerror" where
  "int_error s = ValueError (''invalid literal for int() with base 10: '' @ str_repr s)"

record ParamNml =
  group :: string
  name :: string
  value' :: pyvalue
  help' :: "string option"


section \<open>The value grammar: \<open>_parse_value\<close> and \<open>_parse_array\<close>\<close>

definition quoted :: "char \<Rightarrow> string \<Rightarrow> bool" where
  \<comment> \<open>\<open>v.startswith(q) and v.endswith(q) and v.count(q) == 2\<close>\<close>
  "quoted q v = (prefix [q] v \<and> suffix [q] v \<and> count_list v q = 2)"

definition token_weight :: "string \<Rightarrow> nat" where
  \<comment> \<open>Used only to show that the recursion of the value grammar ends.\<close>
  "token_weight t = (if CHR ''*'' \<in> set t then 2 * length t else 2 * length t + 2)"

definition max_weight :: "string list \<Rightarrow> nat" where
  "max_weight ts = fold max (map token_weight ts) 0"

text \<open>The pieces a string is split into are shorter than the string.\<close>

lemma py_split_ne: "py_split sep s \<noteq> []"
  by (induction sep s rule: py_split.induct) (auto simp: Let_def)

lemma py_split_len:
  "t \<in> set (py_split [c] s) \<Longrightarrow> length t + (if c \<in> set s then 1 else 0) \<le> length s"
proof (induction s arbitrary: t)
  case Nil
  then show ?case by simp
next
  case (Cons x xs)
  show ?case
  proof (cases "x = c")
    case True
    then have "py_split [c] (x # xs) = [] # py_split [c] xs" by simp
    with Cons.prems have "t = [] \<or> t \<in> set (py_split [c] xs)" by auto
    then show ?thesis
    proof
      assume "t = []" then show ?thesis using True by simp
    next
      assume "t \<in> set (py_split [c] xs)"
      from Cons.IH[OF this] show ?thesis using True by (simp split: if_splits)
    qed
  next
    case False
    let ?r = "py_split [c] xs"
    have ne: "?r \<noteq> []" by (rule py_split_ne)
    from False have "py_split [c] (x # xs) = (x # hd ?r) # tl ?r" by (simp add: Let_def)
    with Cons.prems have "t = x # hd ?r \<or> t \<in> set (tl ?r)" by auto
    then show ?thesis
    proof
      assume t: "t = x # hd ?r"
      have "hd ?r \<in> set ?r" using ne by simp
      from Cons.IH[OF this] show ?thesis using False t by (simp split: if_splits)
    next
      assume "t \<in> set (tl ?r)"
      then have "t \<in> set ?r" using ne by (metis list.set_sel(2))
      from Cons.IH[OF this] show ?thesis using False by (simp split: if_splits)
    qed
  qed
qed

lemma split_ws_Nil: "dropWhile isspace s = [] \<Longrightarrow> split_ws s = []"
  by (subst split_ws.simps) (simp add: Let_def)

lemma split_ws_Cons: "dropWhile isspace s \<noteq> [] \<Longrightarrow>
   split_ws s = takeWhile (\<lambda>c. \<not> isspace c) (dropWhile isspace s)
      # split_ws (dropWhile (\<lambda>c. \<not> isspace c) (dropWhile isspace s))"
  by (subst split_ws.simps) (simp add: Let_def)

lemma drop_hd_shorter: "xs \<noteq> [] \<Longrightarrow> P (hd xs) \<Longrightarrow> length (dropWhile P xs) < length xs"
  by (cases xs) (auto simp: less_Suc_eq_le length_dropWhile_le)

lemma split_ws_sum:
  "sum_list (map length (split_ws s)) + length (split_ws s)
     \<le> (if dropWhile isspace s = [] then 0 else Suc (length (dropWhile isspace s)))"
proof (induction s rule: split_ws.induct)
  case (1 s)
  define t where "t = dropWhile isspace s"
  show ?case
  proof (cases "t = []")
    case True
    then have "split_ws s = []" unfolding t_def by (rule split_ws_Nil)
    then show ?thesis by simp
  next
    case False
    define w where "w = takeWhile (\<lambda>c. \<not> isspace c) t"
    define rest where "rest = dropWhile (\<lambda>c. \<not> isspace c) t"
    define D where "D = dropWhile isspace rest"
    have eq: "split_ws s = w # split_ws rest"
      using False unfolding t_def w_def rest_def by (rule split_ws_Cons)
    have "w @ rest = t" unfolding w_def rest_def by (rule takeWhile_dropWhile_id)
    then have len: "length w + length rest = length t" by (metis length_append)
    have IH: "sum_list (map length (split_ws rest)) + length (split_ws rest)
        \<le> (if D = [] then 0 else Suc (length D))"
      using 1[OF refl False[unfolded t_def]] unfolding D_def rest_def t_def .
    have bound: "sum_list (map length (split_ws rest)) + length (split_ws rest) \<le> length rest"
    proof (cases "D = []")
      case True
      with IH show ?thesis by simp
    next
      case F2: False
      have rne: "rest \<noteq> []"
      proof
        assume "rest = []"
        then have "D = []" unfolding D_def by simp
        with F2 show False by contradiction
      qed
      have "\<not> \<not> isspace (hd rest)" using rne unfolding rest_def by (rule hd_dropWhile)
      then have "isspace (hd rest)" by blast
      from drop_hd_shorter[OF rne, of isspace, OF this] have "length D < length rest"
        unfolding D_def .
      moreover from IH F2 have "sum_list (map length (split_ws rest)) + length (split_ws rest) \<le> Suc (length D)"
        by (simp only: if_False)
      ultimately show ?thesis by linarith
    qed
    have "sum_list (map length (split_ws s)) + length (split_ws s)
       = Suc (length w + (sum_list (map length (split_ws rest)) + length (split_ws rest)))"
      unfolding eq by simp
    with bound len have "sum_list (map length (split_ws s)) + length (split_ws s) \<le> Suc (length t)"
      by linarith
    with False show ?thesis unfolding t_def by (simp only: if_False)
  qed
qed

lemma split_ws_len:
  assumes "length (split_ws s) > 1" "t \<in> set (split_ws s)"
  shows "length t < length s"
proof -
  have "length t \<le> sum_list (map length (split_ws s))"
    using assms(2) by (simp add: member_le_sum_list)
  moreover have "sum_list (map length (split_ws s)) + length (split_ws s) \<le> Suc (length s)"
    using split_ws_sum[of s] length_dropWhile_le[of isspace s] by (simp split: if_splits)
  ultimately show ?thesis using assms(1) by linarith
qed

lemma strip_len: "length (strip s) \<le> length s"
  unfolding strip_def rstrip_def lstrip_def
  by (metis length_rev length_dropWhile_le le_trans)

lemma slice_inner_len: "s \<noteq> [] \<Longrightarrow> length (slice_inner s) < length s"
  by (cases s) (auto simp: slice_inner_def)

lemma max_weight_less: "(\<And>t. t \<in> set ts \<Longrightarrow> token_weight t < b) \<Longrightarrow> 0 < b \<Longrightarrow> max_weight ts < b"
proof -
  have "(\<And>t. t \<in> set ts \<Longrightarrow> token_weight t < b) \<Longrightarrow> a < b \<Longrightarrow> fold max (map token_weight ts) a < b" for a
    by (induction ts arbitrary: a) auto
  then show "(\<And>t. t \<in> set ts \<Longrightarrow> token_weight t < b) \<Longrightarrow> 0 < b \<Longrightarrow> max_weight ts < b"
    unfolding max_weight_def by blast
qed

lemma fold_max_out: "fold max xs (max a b) = max a (fold max xs b)" for a b :: nat
proof (induction xs arbitrary: b)
  case Nil
  then show ?case by simp
next
  case (Cons x xs)
  have "fold max (x # xs) (max a b) = fold max xs (max a (max x b))"
    by (simp add: max.left_commute)
  also have "\<dots> = max a (fold max xs (max x b))" by (rule Cons.IH)
  finally show ?case by simp
qed

lemma max_weight_Cons: "max_weight (t # ts) = max (token_weight t) (max_weight ts)"
  using fold_max_out[of "map token_weight ts" "token_weight t" 0]
  by (simp add: max_weight_def)

lemma token_weight_le: "token_weight t \<le> 2 * length t + 2"
  by (simp add: token_weight_def)

lemma star_split_len:
  assumes "py_split ''*'' v = [mult, val]" "CHR ''*'' \<in> set v"
  shows "length (strip val) < length v"
proof -
  have "val \<in> set (py_split [CHR ''*''] v)" using assms(1) by simp
  from py_split_len[OF this] assms(2) have "length val < length v" by simp
  with strip_len[of val] show ?thesis by linarith
qed

function parse_value :: "string \<Rightarrow> pyerror + pyvalue"
  and parse_array :: "string list \<Rightarrow> pyerror + pyvalue list" where
  "parse_value v =
     (case py_int v of
        Some i \<Rightarrow> Inr (VInt i)
      | None \<Rightarrow>
         (case py_float v of
            Some x \<Rightarrow> Inr (VFloat x)
          | None \<Rightarrow>
              if lower v \<in> set [''.true.'', ''t'', ''true''] then Inr (VBool True)
              else if lower v \<in> set [''.false.'', ''f'', ''false''] then Inr (VBool False)
              else if quoted SQ v \<or> quoted DQ v then Inr (VStr (slice_inner v))
              else if prefix ''/'' v \<and> suffix ''/'' v
              then (case parse_array (py_split '','' (slice_inner v)) of
                      Inl e \<Rightarrow> Inl e | Inr xs \<Rightarrow> Inr (VList xs))
              else if CHR '','' \<in> set v
              then (case parse_array (py_split '','' v) of
                      Inl e \<Rightarrow> Inl e | Inr xs \<Rightarrow> Inr (VList xs))
              else if CHR ''*'' \<in> set v
              then (case parse_array [v] of
                      Inl e \<Rightarrow> Inl e | Inr xs \<Rightarrow> Inr (VList xs))
              else if length (split_ws v) > 1
              then (case parse_array (split_ws v) of
                      Inl e \<Rightarrow> Inl e | Inr xs \<Rightarrow> Inr (VList xs))
              else Inl (ValueError v)))"
| "parse_array [] = Inr []"
| "parse_array (v # vs) =
     (if CHR ''*'' \<in> set v
      then (case py_split ''*'' v of
              [mult, val] \<Rightarrow>
                (case py_int mult of
                   None \<Rightarrow> Inl (int_error mult)
                 | Some n \<Rightarrow>
                     (case parse_value (strip val) of
                        Inl e \<Rightarrow> Inl e
                      | Inr x \<Rightarrow>
                          (case parse_array vs of
                             Inl e \<Rightarrow> Inl e
                           | Inr xs \<Rightarrow> Inr (replicate (nat n) x @ xs))))
            | parts \<Rightarrow> Inl (unpack_error (length parts)))
      else (case parse_value v of
              Inl e \<Rightarrow> Inl e
            | Inr x \<Rightarrow>
                (case parse_array vs of
                   Inl e \<Rightarrow> Inl e
                 | Inr xs \<Rightarrow> Inr (x # xs))))"
  by pat_completeness auto
termination
proof (relation "measures [\<lambda>x. case x of Inl v \<Rightarrow> 2 * length v + 1 | Inr ts \<Rightarrow> max_weight ts,
                           \<lambda>x. case x of Inl v \<Rightarrow> 0 | Inr ts \<Rightarrow> length ts]", goal_cases)
  case 1
  then show ?case by simp
next
  case (2 v)
  then have ne: "v \<noteq> []" by auto
  have "max_weight (py_split '','' (slice_inner v)) < 2 * length v + 1"
  proof (rule max_weight_less)
    fix t assume "t \<in> set (py_split '','' (slice_inner v))"
    from py_split_len[OF this] have "length t \<le> length (slice_inner v)" by (simp split: if_splits)
    with slice_inner_len[OF ne] token_weight_le[of t] show "token_weight t < 2 * length v + 1"
      by linarith
  qed simp
  then show ?case by simp
next
  case (3 v)
  have "max_weight (py_split '','' v) < 2 * length v + 1"
  proof (rule max_weight_less)
    fix t assume "t \<in> set (py_split '','' v)"
    from py_split_len[OF this] 3(7) have "length t < length v" by simp
    with token_weight_le[of t] show "token_weight t < 2 * length v + 1"
      by linarith
  qed simp
  then show ?case by simp
next
  case (4 v)
  then show ?case by (simp add: max_weight_def token_weight_def)
next
  case (5 v)
  have "max_weight (split_ws v) < 2 * length v + 1"
  proof (rule max_weight_less)
    fix t assume "t \<in> set (split_ws v)"
    with 5(9) have "length t < length v" by (simp add: split_ws_len)
    with token_weight_le[of t] show "token_weight t < 2 * length v + 1"
      by linarith
  qed simp
  then show ?case by simp
next
  case (6 v vs mult rest val rest' n)
  then have "py_split ''*'' v = [mult, val]" by simp
  from star_split_len[OF this 6(1)] have "length (strip val) < length v" .
  then have "2 * length (strip val) + 1 < max (token_weight v) (max_weight vs)"
    using 6(1) by (simp add: token_weight_def less_max_iff_disj)
  then show ?case by (simp add: max_weight_Cons)
next
  case (7 v vs)
  have "max_weight vs \<le> max (token_weight v) (max_weight vs)" by simp
  then show ?case by (simp add: max_weight_Cons le_less)
next
  case (8 v vs)
  then have "2 * length v + 1 < max (token_weight v) (max_weight vs)"
    by (simp add: token_weight_def less_max_iff_disj)
  then show ?case by (simp add: max_weight_Cons)
next
  case (9 v vs)
  have "max_weight vs \<le> max (token_weight v) (max_weight vs)" by simp
  then show ?case by (simp add: max_weight_Cons le_less)
qed

declare parse_value.simps [simp del]


section \<open>The line parser and the group extractor\<close>

definition parse_line :: "string \<Rightarrow> pyerror + (string \<times> pyvalue \<times> string)" where
  \<comment> \<open>\<open>_parse_line\<close>: the name, the value and the comment of one logical line.\<close>
  "parse_line line =
     (let (comment, line1) =
            (if CHR ''!'' \<in> set line
             then (strip (drop (index line CHR ''!'' + 1) line),
                   strip (take (index line CHR ''!'') line))
             else ([], line));
          line2 = (if suffix '','' line1 then butlast line1 else line1)
      in case py_split ''='' line2 of
           [k, v] \<Rightarrow>
             (case parse_value (strip v) of
                Inl e \<Rightarrow> Inl e
              | Inr x \<Rightarrow> Inr (strip k, x, comment))
         | parts \<Rightarrow> Inl (unpack_error (length parts)))"

definition block_end :: "string \<Rightarrow> nat option" where
  \<comment> \<open>In a run of characters other than \<open>&\<close>: the position of its last \<open>/\<close>, when that
      is not the first character of the run.\<close>
  "block_end run =
     (let k = length run - Suc (length (takeWhile (\<lambda>x. x \<noteq> CHR ''/'') (rev run)))
      in if CHR ''/'' \<in> set run \<and> 0 < k then Some k else None)"

function group_blocks :: "string \<Rightarrow> string list" where
  \<comment> \<open>\<open>re.findall\<close> of the pattern \<open>&([^&]+)/\<close>: at an \<open>&\<close>, the greedy \<open>[^&]+\<close> takes the
      characters up to the next \<open>&\<close> and gives back until a \<open>/\<close> follows; the search goes on
      after the match, or at the next character where there is none.\<close>
  "group_blocks [] = []"
| "group_blocks (c # cs) =
     (if c = CHR ''&''
      then (case block_end (takeWhile (\<lambda>x. x \<noteq> CHR ''&'') cs) of
              Some k \<Rightarrow> take k cs # group_blocks (drop (Suc k) cs)
            | None \<Rightarrow> group_blocks cs)
      else group_blocks cs)"
  by pat_completeness auto
termination
  by (relation "measure length") auto

fun filter_lines :: "bool \<Rightarrow> string list \<Rightarrow> string list" where
  \<comment> \<open>The first loop of \<open>parse_nml\<close>: blank lines and comment lines are dropped.\<close>
  "filter_lines ignore_comments [] = []"
| "filter_lines ignore_comments (l # ls) =
     (let line = strip l
      in if line = [] then filter_lines ignore_comments ls
         else if prefix ''!'' line then filter_lines ignore_comments ls
         else (if ignore_comments \<and> CHR ''!'' \<in> set line
               then take (index line CHR ''!'') line else line)
              # filter_lines ignore_comments ls)"

definition group_name_of :: "string \<Rightarrow> string" where
  \<comment> \<open>The first line of a block, without its comment.\<close>
  "group_name_of first =
     (let g = strip first
      in if CHR ''!'' \<in> set g then strip (take (index g CHR ''!'') g) else g)"

fun join_continuations :: "string list \<Rightarrow> string list \<Rightarrow> pyerror + string list" where
  \<comment> \<open>The loop over \<open>group_lines\<close>; the first argument is \<open>joined_lines\<close>.\<close>
  "join_continuations joined [] = Inr joined"
| "join_continuations joined (l # ls) =
     (let line = strip l
      in if CHR ''='' \<in> set line then join_continuations (joined @ [line]) ls
         else if line = [] then join_continuations joined ls
         else if joined = [] then Inl (IndexError ''list index out of range'')
         else join_continuations (butlast joined @ [last joined @ line]) ls)"

fun parse_lines :: "string \<Rightarrow> string list \<Rightarrow> pyerror + ParamNml list" where
  "parse_lines g [] = Inr []"
| "parse_lines g (l # ls) =
     (case parse_line l of
        Inl e \<Rightarrow> Inl e
      | Inr (n, v, c) \<Rightarrow>
          (case parse_lines g ls of
             Inl e \<Rightarrow> Inl e
           | Inr ps \<Rightarrow> Inr (\<lparr>group = g, name = n, value' = v, help' = Some c\<rparr> # ps)))"

definition parse_block :: "string \<Rightarrow> pyerror + ParamNml list" where
  "parse_block group_block =
     (case py_split [NL] group_block of
        [] \<Rightarrow> Inl (IndexError ''pop from empty list'')
      | first # group_lines \<Rightarrow>
          (case join_continuations [] group_lines of
             Inl e \<Rightarrow> Inl e
           | Inr joined \<Rightarrow> parse_lines (group_name_of first) joined))"

fun parse_blocks :: "string list \<Rightarrow> pyerror + ParamNml list" where
  "parse_blocks [] = Inr []"
| "parse_blocks (b # bs) =
     (case parse_block b of
        Inl e \<Rightarrow> Inl e
      | Inr ps \<Rightarrow>
          (case parse_blocks bs of
             Inl e \<Rightarrow> Inl e
           | Inr qs \<Rightarrow> Inr (ps @ qs)))"

definition parse_nml :: "string \<Rightarrow> bool \<Rightarrow> pyerror + ParamNml list" where
  "parse_nml string ignore_comments =
     parse_blocks (group_blocks (join [NL] (filter_lines ignore_comments (py_split [NL] string))))"


section \<open>Ordered dictionaries\<close>

text \<open>
  A \<open>dict\<close> or \<open>OrderedDict\<close> is the list of its items in insertion order.  Assigning to a
  key that is present replaces its value in place; a new key goes to the end.
\<close>

fun setitem :: "('k \<times> 'v) list \<Rightarrow> 'k \<Rightarrow> 'v \<Rightarrow> ('k \<times> 'v) list" where
  "setitem [] k v = [(k, v)]"
| "setitem ((k', v') # d) k v = (if k' = k then (k', v) # d else (k', v') # setitem d k v)"

definition odict :: "('k \<times> 'v) list \<Rightarrow> ('k \<times> 'v) list" where
  \<comment> \<open>\<open>OrderedDict(items)\<close>\<close>
  "odict items = foldl (\<lambda>d (k, v). setitem d k v) [] items"


section \<open>The formatter\<close>

text \<open>
  \<open>repr\<close> of a float (the shortest decimal that reads back as the same binary64 number) is
  a primitive of the runtime; the formatter takes it as the parameter \<open>float_repr\<close>.
\<close>

fun py_repr :: "(pyfloat \<Rightarrow> string) \<Rightarrow> pyvalue \<Rightarrow> string" where
  "py_repr float_repr (VInt i) = show_int i"
| "py_repr float_repr (VFloat x) = float_repr x"
| "py_repr float_repr (VBool b) = (if b then ''True'' else ''False'')"
| "py_repr float_repr (VStr s) = str_repr s"
| "py_repr float_repr (VList xs) = ''['' @ join '', '' (map (py_repr float_repr) xs) @ '']''"

definition format_value :: "(pyfloat \<Rightarrow> string) \<Rightarrow> pyvalue \<Rightarrow> string" where
  \<comment> \<open>\<open>_format_value\<close>\<close>
  "format_value float_repr v =
     (case v of
        VBool b \<Rightarrow> if b then ''.true.'' else ''.false.''
      | _ \<Rightarrow> py_repr float_repr v)"

definition format_param :: "(pyfloat \<Rightarrow> string) \<Rightarrow> ParamNml \<Rightarrow> string" where
  \<comment> \<open>The body of the inner loop of \<open>format_nml\<close>: the line of one parameter.\<close>
  "format_param float_repr param =
     (let nmstr = ljust 15 (name param);
          line = (case value' param of
                    VList vs \<Rightarrow>
                      '' '' @ nmstr @ '' = '' @ join '' '' (map (format_value float_repr) vs)
                  | v \<Rightarrow> '' '' @ nmstr @ '' = '' @ format_value float_repr v);
          line = ljust 30 line
      in case help' param of
           None \<Rightarrow> line
         | Some h \<Rightarrow> if h \<noteq> [] then line @ '' ! '' @ h else line)"

function groupby :: "('a \<Rightarrow> 'k) \<Rightarrow> 'a list \<Rightarrow> ('k \<times> 'a list) list" where
  \<comment> \<open>\<open>itertools.groupby\<close>: the maximal runs of consecutive elements with equal keys.\<close>
  "groupby f [] = []"
| "groupby f (x # xs) =
     (f x, x # takeWhile (\<lambda>y. f y = f x) xs) # groupby f (dropWhile (\<lambda>y. f y = f x) xs)"
  by pat_completeness auto
termination
  by (relation "measure (\<lambda>(f, xs). length xs)") (auto simp: less_Suc_eq_le length_dropWhile_le)

fun format_groups :: "(pyfloat \<Rightarrow> string) \<Rightarrow> (string \<times> ParamNml list) list \<Rightarrow> pyerror + string list" where
  \<comment> \<open>The outer loop of \<open>format_nml\<close>: the lines, or the error of the first empty group
      name.\<close>
  "format_groups float_repr [] = Inr []"
| "format_groups float_repr ((group_name, group_params) # rest) =
     (if group_name = [] then Inl (ValueError ''Group not defined. Cannot write to namelist.'')
      else case format_groups float_repr rest of
             Inl e \<Rightarrow> Inl e
           | Inr lines \<Rightarrow>
               Inr ((''&'' @ group_name) # map (format_param float_repr) group_params
                     @ [''/''] @ lines))"

definition format_nml :: "(pyfloat \<Rightarrow> string) \<Rightarrow> ParamNml list \<Rightarrow> pyerror + string" where
  "format_nml float_repr params =
     (case format_groups float_repr (groupby group params) of
        Inl e \<Rightarrow> Inl e
      | Inr lines \<Rightarrow> Inr (join [NL] lines @ [NL]))"


section \<open>The class \<open>Namelist\<close>\<close>

text \<open>The first argument of \<open>dumps\<close> and \<open>loads\<close> is \<open>self.sep\<close>.\<close>

fun dumps_pars :: "string \<Rightarrow> (string \<times> pyvalue) list \<Rightarrow> pyerror + ParamNml list" where
  \<comment> \<open>The loop of \<open>dumps\<close>.\<close>
  "dumps_pars sp [] = Inr []"
| "dumps_pars sp ((longname, v) # rest) =
     (if sp = [] then Inl (ValueError ''empty separator'')
      else case py_split sp longname of
             [g, n] \<Rightarrow>
               (case dumps_pars sp rest of
                  Inl e \<Rightarrow> Inl e
                | Inr pars \<Rightarrow> Inr (\<lparr>group = g, name = n, value' = v, help' = None\<rparr> # pars))
           | parts \<Rightarrow> Inl (unpack_error (length parts)))"

definition dumps :: "string \<Rightarrow> (pyfloat \<Rightarrow> string) \<Rightarrow> (string \<times> pyvalue) list \<Rightarrow> pyerror + string" where
  "dumps sp float_repr params =
     (case dumps_pars sp params of
        Inl e \<Rightarrow> Inl e
      | Inr pars \<Rightarrow> format_nml float_repr pars)"

definition loads :: "string \<Rightarrow> string \<Rightarrow> pyerror + (string \<times> pyvalue) list" where
  "loads sp string =
     (case parse_nml string False of
        Inl e \<Rightarrow> Inl e
      | Inr params \<Rightarrow> Inr (odict (map (\<lambda>p. (group p @ sp @ name p, value' p)) params)))"


section \<open>The helpers on files\<close>

text \<open>
  The files are a map from paths to contents.  A function that writes returns the files as
  it leaves them, next to its result or its exception.
\<close>

type_synonym files = "string \<Rightarrow> string option"

definition load :: "files \<Rightarrow> string \<Rightarrow> pyerror + (string \<times> pyvalue) list" where
  \<comment> \<open>Modelled from the spec: \<open>FileType.load\<close> of \<open>runner/filetype.py\<close>, which is not among
      the sources: "load a namelist from a file path".  \<open>Namelist().load(open(path))\<close>
      reads the file (an absent one fails in \<open>open\<close>) and parses it with the separator
      \<open>.\<close>.\<close>
  "load fs path =
     (case fs path of
        None \<Rightarrow> Inl (FileNotFoundError path)
      | Some text \<Rightarrow> loads ''.'' text)"

definition dump :: "(pyfloat \<Rightarrow> string) \<Rightarrow> (string \<times> pyvalue) list \<Rightarrow> pyerror + string" where
  \<comment> \<open>Modelled from the spec: \<open>FileType.dump\<close> of \<open>runner/filetype.py\<close>, which is not among
      the sources: "write the merged namelist to an output path".  \<open>Namelist().dump(params, f)\<close>
      writes the text of \<open>dumps\<close> to \<open>f\<close>; this is the text.\<close>
  "dump float_repr params = dumps ''.'' float_repr params"

fun nml_update_if_exists ::
  "(string \<times> pyvalue) list \<Rightarrow> (string \<times> pyvalue) list \<Rightarrow> (string \<times> pyvalue) list" where
  "nml_update_if_exists par [] = par"
| "nml_update_if_exists par ((key, v) # new) =
     nml_update_if_exists (if key \<in> fst ` set par then setitem par key v else par) new"

fun map_groups_loop ::
  "(string \<times> 'v) list \<Rightarrow> (string \<times> 'v) list \<Rightarrow> (string \<times> string) list
     \<Rightarrow> pyerror + (string \<times> 'v) list" where
  \<comment> \<open>The loop of \<open>param_map_groups\<close>; the first argument is \<open>params_out\<close>.\<close>
  "map_groups_loop params_out [] grp_aliases = Inr params_out"
| "map_groups_loop params_out ((key, val) # rest) grp_aliases =
     (if CHR ''.'' \<in> set key
      then (case py_split ''.'' key of
              grp # par # _ \<Rightarrow>
                (let grp_new = (case map_of grp_aliases grp of Some a \<Rightarrow> a | None \<Rightarrow> grp)
                 in map_groups_loop (setitem params_out (grp_new @ ''.'' @ par) val) rest
                      grp_aliases)
            | _ \<Rightarrow> Inl (IndexError ''list index out of range''))
      else map_groups_loop (setitem params_out key val) rest grp_aliases)"

definition param_map_groups ::
  "(string \<times> 'v) list \<Rightarrow> (string \<times> string) list \<Rightarrow> pyerror + (string \<times> 'v) list" where
  "param_map_groups params grp_aliases = map_groups_loop [] params grp_aliases"

fun load_all :: "files \<Rightarrow> string list \<Rightarrow> pyerror + (string \<times> pyvalue) list list" where
  \<comment> \<open>The first loop of \<open>param_check_all\<close>.\<close>
  "load_all fs [] = Inr []"
| "load_all fs (path # paths) =
     (case load fs path of
        Inl e \<Rightarrow> Inl e
      | Inr d \<Rightarrow> (case load_all fs paths of Inl e \<Rightarrow> Inl e | Inr ds \<Rightarrow> Inr (d # ds)))"

definition param_check_all :: "files \<Rightarrow> (string \<times> pyvalue) list \<Rightarrow> string list \<Rightarrow> pyerror + unit" where
  "param_check_all fs params par_paths =
     (case load_all fs par_paths of
        Inl e \<Rightarrow> Inl e
      | Inr params_all \<Rightarrow>
          (let all_keys = \<Union> (set (map (\<lambda>d. fst ` set d) params_all));
               missing_keys = fst ` set params - all_keys
           in if missing_keys \<noteq> {} then Inl (MissingParameters missing_keys par_paths)
              else Inr ()))"

definition param_write_to_file ::
  "(pyfloat \<Rightarrow> string) \<Rightarrow> files \<Rightarrow> (string \<times> pyvalue) list \<Rightarrow> string \<Rightarrow> string
     \<Rightarrow> (pyerror + unit) \<times> files" where
  \<comment> \<open>\<open>open(par_dst_path, 'w')\<close> empties the file before \<open>dump\<close> runs.\<close>
  "param_write_to_file float_repr fs params par_src_path par_dst_path =
     (case load fs par_src_path of
        Inl e \<Rightarrow> (Inl e, fs)
      | Inr params_now \<Rightarrow>
          (case dump float_repr (nml_update_if_exists params_now params) of
             Inl e \<Rightarrow> (Inl e, fs(par_dst_path \<mapsto> []))
           | Inr text \<Rightarrow> (Inr (), fs(par_dst_path \<mapsto> text))))"

fun write_loop ::
  "(pyfloat \<Rightarrow> string) \<Rightarrow> files \<Rightarrow> (string \<times> pyvalue) list \<Rightarrow> (string \<times> string) list
     \<Rightarrow> (pyerror + unit) \<times> files" where
  \<comment> \<open>The loop of \<open>param_write_to_files\<close> over \<open>zip(nml_src_paths, nml_dst_paths)\<close>.\<close>
  "write_loop float_repr fs params [] = (Inr (), fs)"
| "write_loop float_repr fs params ((src, dst) # rest) =
     (case param_write_to_file float_repr fs params src dst of
        (Inl e, fs') \<Rightarrow> (Inl e, fs')
      | (Inr _, fs') \<Rightarrow> write_loop float_repr fs' params rest)"

definition param_write_to_files ::
  "(pyfloat \<Rightarrow> string) \<Rightarrow> files \<Rightarrow> (string \<times> pyvalue) list \<Rightarrow> string list \<Rightarrow> string list
     \<Rightarrow> (string \<times> string) list option \<Rightarrow> (pyerror + unit) \<times> files" where
  "param_write_to_files float_repr fs params nml_src_paths nml_dst_paths grp_aliases =
     (case (case grp_aliases of
              Some al \<Rightarrow> if length al > 0 then param_map_groups params al else Inr params
            | None \<Rightarrow> Inr params) of
        Inl e \<Rightarrow> (Inl e, fs)
      | Inr params_mapped \<Rightarrow>
          (case param_check_all fs params_mapped nml_src_paths of
             Inl e \<Rightarrow> (Inl e, fs)
           | Inr _ \<Rightarrow> write_loop float_repr fs params_mapped (zip nml_src_paths nml_dst_paths)))"


section \<open>The precedence of the value grammar, in the words of the specification\<close>

text \<open>
  The specification describes the value grammar as an ordered list of matchers, each
  returning a result or nothing, the first result winning.  A matcher that applies gives
  the outcome of its rule, which for an array is the list of the parsed elements or the
  error of the first element that does not parse.
\<close>

type_synonym matcher = "string \<Rightarrow> (pyerror + pyvalue) option"

definition as_list :: "pyerror + pyvalue list \<Rightarrow> pyerror + pyvalue" where
  "as_list r = (case r of Inl e \<Rightarrow> Inl e | Inr xs \<Rightarrow> Inr (VList xs))"

definition match_integer :: matcher where
  "match_integer v = map_option (\<lambda>i. Inr (VInt i)) (py_int v)"

definition match_float :: matcher where
  "match_float v = map_option (\<lambda>x. Inr (VFloat x)) (py_float v)"

definition match_boolean :: matcher where
  "match_boolean v =
     (if lower v \<in> {''.true.'', ''t'', ''true''} then Some (Inr (VBool True))
      else if lower v \<in> {''.false.'', ''f'', ''false''} then Some (Inr (VBool False))
      else None)"

definition match_quoted_string :: matcher where
  "match_quoted_string v =
     (if quoted SQ v \<or> quoted DQ v then Some (Inr (VStr (slice_inner v))) else None)"

definition match_slash_array :: matcher where
  "match_slash_array v =
     (if prefix ''/'' v \<and> suffix ''/'' v
      then Some (as_list (parse_array (py_split '','' (slice_inner v)))) else None)"

definition match_comma_array :: matcher where
  "match_comma_array v =
     (if CHR '','' \<in> set v then Some (as_list (parse_array (py_split '','' v))) else None)"

definition match_repeat_array :: matcher where
  "match_repeat_array v =
     (if CHR ''*'' \<in> set v then Some (as_list (parse_array [v])) else None)"

definition match_whitespace_array :: matcher where
  "match_whitespace_array v =
     (if length (split_ws v) > 1 then Some (as_list (parse_array (split_ws v))) else None)"

fun first_match :: "matcher list \<Rightarrow> matcher" where
  "first_match [] v = None"
| "first_match (m # ms) v = (case m v of Some r \<Rightarrow> Some r | None \<Rightarrow> first_match ms v)"

definition precedence :: "matcher list" where
  "precedence = [match_integer, match_float, match_boolean, match_quoted_string,
                 match_slash_array, match_comma_array, match_repeat_array,
                 match_whitespace_array]"


subsection \<open>Words of the claims about lines and keys\<close>

text \<open>
  The working line of a logical line is the line without its comment and without its
  trailing comma; \<open>before_first\<close> and \<open>after_first\<close> are the two sides of the first
  occurrence of a character.  \<open>first_two_segments\<close> is the key the claim about
  \<open>param_map_groups\<close> describes.
\<close>

definition working_line :: "string \<Rightarrow> string" where
  "working_line line =
     (let line1 = (if CHR ''!'' \<in> set line then strip (take (index line CHR ''!'') line) else line)
      in if suffix '','' line1 then butlast line1 else line1)"

definition line_comment :: "string \<Rightarrow> string" where
  "line_comment line =
     (if CHR ''!'' \<in> set line then strip (drop (index line CHR ''!'' + 1) line) else [])"

definition before_first :: "char \<Rightarrow> string \<Rightarrow> string" where
  "before_first c s = takeWhile (\<lambda>x. x \<noteq> c) s"

definition after_first :: "char \<Rightarrow> string \<Rightarrow> string" where
  "after_first c s = drop (Suc (length (takeWhile (\<lambda>x. x \<noteq> c) s))) s"



subsection \<open>Repeated assignment, and a text with duplicate keys\<close>

abbreviation setitems :: "('k \<times> 'v) list \<Rightarrow> ('k \<times> 'v) list \<Rightarrow> ('k \<times> 'v) list" where
  "setitems d items \<equiv> foldl (\<lambda>d (k, v). setitem d k v) d items"


definition dup_text :: string where
  "dup_text = ''&g'' @ [NL] @ ''a = 1'' @ [NL] @ ''a = 2'' @ [NL] @ ''/'' @ [NL]
              @ ''&g'' @ [NL] @ ''b = 1'' @ [NL] @ ''a = 3'' @ [NL] @ ''/'' @ [NL]"


section \<open>Facts about the primitives\<close>


lemma py_split_notin: "c \<notin> set s \<Longrightarrow> py_split [c] s = [s]"
  by (induction s) (auto simp: Let_def)

lemma py_split_append: "c \<notin> set a \<Longrightarrow> py_split [c] (a @ c # b) = a # py_split [c] b"
  by (induction a) (auto simp: Let_def)

lemma split_at_first:
  "c \<in> set s \<Longrightarrow> takeWhile (\<lambda>x. x \<noteq> c) s @ c # drop (Suc (length (takeWhile (\<lambda>x. x \<noteq> c) s))) s = s"
proof (induction s)
  case Nil
  then show ?case by simp
next
  case (Cons x xs)
  then show ?case by (cases "x = c") simp_all
qed

lemma py_split_first:
  "c \<in> set s \<Longrightarrow>
   py_split [c] s = takeWhile (\<lambda>x. x \<noteq> c) s
                     # py_split [c] (drop (Suc (length (takeWhile (\<lambda>x. x \<noteq> c) s))) s)"
proof -
  assume c: "c \<in> set s"
  define a where "a = takeWhile (\<lambda>x. x \<noteq> c) s"
  define b where "b = drop (Suc (length a)) s"
  have "c \<notin> set a" unfolding a_def by (auto dest: set_takeWhileD)
  then have "py_split [c] (a @ c # b) = a # py_split [c] b" by (rule py_split_append)
  moreover have "a @ c # b = s" unfolding a_def b_def using c by (rule split_at_first)
  ultimately show ?thesis unfolding a_def b_def by simp
qed

lemma py_split_length: "length (py_split [c] s) = Suc (count_list s c)"
  by (induction s) (auto simp: Let_def py_split_ne)

lemma count_list_0_iff: "count_list s c = 0 \<longleftrightarrow> c \<notin> set s"
  by (induction s) auto

lemma py_split_one:
  assumes "count_list s c = 1"
  shows "py_split [c] s = [takeWhile (\<lambda>x. x \<noteq> c) s, drop (Suc (length (takeWhile (\<lambda>x. x \<noteq> c) s))) s]"
proof -
  define a where "a = takeWhile (\<lambda>x. x \<noteq> c) s"
  define b where "b = drop (Suc (length a)) s"
  have c: "c \<in> set s" using assms count_list_0_iff[of s c] by auto
  have s: "a @ c # b = s" unfolding a_def b_def using c by (rule split_at_first)
  have "count_list (a @ c # b) c = 1" using assms unfolding s .
  moreover have "c \<notin> set a" unfolding a_def by (auto dest: set_takeWhileD)
  then have "count_list a c = 0" by (simp add: count_list_0_iff)
  ultimately have "count_list b c = 0" by simp
  then have "c \<notin> set b" by (simp add: count_list_0_iff)
  then have "py_split [c] b = [b]" by (rule py_split_notin)
  with py_split_first[OF c] show ?thesis unfolding a_def b_def by simp
qed




lemma parse_line_unfold:
  "parse_line line =
     (case py_split ''='' (working_line line) of
        [k, v] \<Rightarrow> (case parse_value (strip v) of
                      Inl e \<Rightarrow> Inl e
                    | Inr x \<Rightarrow> Inr (strip k, x, line_comment line))
      | parts \<Rightarrow> Inl (unpack_error (length parts)))"
  unfolding parse_line_def working_line_def line_comment_def Let_def
  by (cases "CHR ''!'' \<in> set line") (simp_all only: if_True if_False prod.case)

lemma unpack_error_1:
  "unpack_error (Suc 0) = ValueError ''not enough values to unpack (expected 2, got 1)''"
  by code_simp

lemma length_ge3_unpack:
  "length parts > 2 \<Longrightarrow>
   (case parts of [k, v] \<Rightarrow> f k v | parts \<Rightarrow> Inl (unpack_error (length parts)))
     = Inl (ValueError ''too many values to unpack (expected 2)'')"
  by (auto simp: unpack_error_def split: list.splits)


lemma setitem_eq_update: "setitem d k v = AList.update k v d"
  by (induction d) auto

lemma map_of_setitem: "map_of (setitem d k v) = (map_of d)(k \<mapsto> v)"
  by (simp add: setitem_eq_update update_conv')

lemma keys_setitem: "fst ` set (setitem d k v) = insert k (fst ` set d)"
  by (simp add: setitem_eq_update dom_update)

lemma distinct_setitem: "distinct (map fst d) \<Longrightarrow> distinct (map fst (setitem d k v))"
  by (simp add: setitem_eq_update distinct_update)

lemma setitem_new: "k \<notin> fst ` set d \<Longrightarrow> setitem d k v = d @ [(k, v)]"
  by (induction d) auto

lemma map_of_setitems: "map_of (setitems d items) = map_of d ++ map_of (rev items)"
  by (induction items arbitrary: d) (auto simp: map_of_setitem fun_eq_iff map_add_def split: option.splits)

lemma keys_setitems: "fst ` set (setitems d items) = fst ` set d \<union> fst ` set items"
proof (induction items arbitrary: d)
  case Nil
  then show ?case by simp
next
  case (Cons kv items)
  obtain k v where kv: "kv = (k, v)" by (cases kv)
  have "fst ` set (setitems (setitem d k v) items) = fst ` set (setitem d k v) \<union> fst ` set items"
    by (rule Cons.IH)
  then show ?case using kv by (simp add: keys_setitem)
qed

lemma distinct_setitems: "distinct (map fst d) \<Longrightarrow> distinct (map fst (setitems d items))"
  by (induction items arbitrary: d) (auto simp: distinct_setitem)

lemma setitems_distinct: "distinct (map fst (d @ items)) \<Longrightarrow> setitems d items = d @ items"
proof (induction items arbitrary: d)
  case Nil
  then show ?case by simp
next
  case (Cons kv items)
  obtain k v where kv: "kv = (k, v)" by (cases kv)
  from Cons.prems kv have "k \<notin> fst ` set d" by auto
  then have "setitem d k v = d @ [(k, v)]" by (rule setitem_new)
  moreover from Cons.prems kv have "distinct (map fst ((d @ [(k, v)]) @ items))" by auto
  ultimately show ?case using Cons.IH[of "d @ [(k, v)]"] kv by simp
qed

lemma odict_distinct_id: "distinct (map fst items) \<Longrightarrow> odict items = items"
  using setitems_distinct[of "[]" items] by (simp add: odict_def)

lemma distinct_odict: "distinct (map fst (odict items))"
  using distinct_setitems[of "[]" items] by (simp add: odict_def)

lemma keys_odict: "fst ` set (odict items) = fst ` set items"
  using keys_setitems[of "[]" items] by (simp add: odict_def)

lemma map_of_odict: "map_of (odict items) = map_of (rev items)"
  using map_of_setitems[of "[]" items] by (simp add: odict_def)

lemma odict_last_occurrence:
  assumes "items = pre @ (k, v) # post" "k \<notin> fst ` set post"
  shows "(k, v) \<in> set (odict items)"
proof -
  have "map_of (rev post) k = None" using assms(2) by (simp add: map_of_eq_None_iff)
  then have "map_of (rev items) k = Some v" using assms(1) by (simp add: map_add_def)
  then have "map_of (odict items) k = Some v" by (simp add: map_of_odict)
  then show ?thesis by (rule map_of_SomeD)
qed














section \<open>Claims\<close>

subsection \<open>C2: the order of the matchers\<close>

lemma parse_value_first_match:
  "parse_value v = (case first_match precedence v of Some r \<Rightarrow> r | None \<Rightarrow> Inl (ValueError v))"
  by (cases "py_int v"; cases "py_float v")
     (simp_all add: parse_value.simps[of v] precedence_def match_integer_def
      match_float_def match_boolean_def match_quoted_string_def match_slash_array_def
      match_comma_array_def match_repeat_array_def match_whitespace_array_def as_list_def)

lemma parse_value_examples:
  "parse_value ''10'' = Inr (VInt 10)"
  "parse_value ''10.0'' = Inr (VFloat (Finite 10))"
  "parse_value ''.true.'' = Inr (VBool True)"
  "parse_value [SQ, CHR ''x'', SQ] = Inr (VStr ''x'')"
  "parse_value ''1,2'' = Inr (VList [VInt 1, VInt 2])"
  "parse_value ''1'' = Inr (VInt 1)"
  "parse_value ''2'' = Inr (VInt 2)"
  by code_simp+

text \<open>
  C2: \<open>parse_value\<close> is the first result among the matchers integer, float, boolean, quoted
  string, slash-delimited array, comma-delimited array, repeat-count array and
  whitespace-delimited array, in this order, and the \<open>ValueError\<close> of the text when no
  matcher applies.  \<open>10\<close> is the integer 10 and not a float, \<open>10.0\<close> is the float 10.0,
  \<open>.true.\<close> is \<open>True\<close>, \<open>'x'\<close> is the string \<open>x\<close>, and \<open>1,2\<close> is the list of the integers 1 and
  2, each of which parses alone as an integer.
\<close>

theorem C2_parse_value_precedence:
  "parse_value v = (case first_match precedence v of Some r \<Rightarrow> r | None \<Rightarrow> Inl (ValueError v))
   \<and> precedence = [match_integer, match_float, match_boolean, match_quoted_string,
                   match_slash_array, match_comma_array, match_repeat_array,
                   match_whitespace_array]
   \<and> parse_value ''10'' = Inr (VInt 10)
   \<and> parse_value ''10'' \<noteq> Inr (VFloat (Finite 10))
   \<and> parse_value ''10.0'' = Inr (VFloat (Finite 10))
   \<and> parse_value ''.true.'' = Inr (VBool True)
   \<and> parse_value [SQ, CHR ''x'', SQ] = Inr (VStr ''x'')
   \<and> parse_value ''1,2'' = Inr (VList [VInt 1, VInt 2])
   \<and> parse_value ''1'' = Inr (VInt 1) \<and> parse_value ''2'' = Inr (VInt 2)"
  using parse_value_first_match[of v] parse_value_examples
  by (simp add: precedence_def)

subsection \<open>C7: the line parser and the equals signs\<close>

text \<open>
  C7 (amended): where the working line (the line without its comment and its trailing
  comma) holds exactly one \<open>=\<close>, the name is the trimmed left side and the value is what
  the value grammar makes of the trimmed right side; where it holds more than one \<open>=\<close>,
  also inside a quoted string, the line parser raises the \<open>ValueError\<close> of unpacking too
  many values, and where it holds none that of unpacking too few.
\<close>

theorem C7_parse_line_one_equals_sign:
  "(count_list (working_line line) CHR ''='' = 1 \<longrightarrow>
      parse_line line =
        (case parse_value (strip (after_first CHR ''='' (working_line line))) of
           Inl e \<Rightarrow> Inl e
         | Inr x \<Rightarrow> Inr (strip (before_first CHR ''='' (working_line line)), x, line_comment line)))
   \<and> (count_list (working_line line) CHR ''='' > 1 \<longrightarrow>
      parse_line line = Inl (ValueError ''too many values to unpack (expected 2)''))
   \<and> (count_list (working_line line) CHR ''='' = 0 \<longrightarrow>
      parse_line line = Inl (ValueError ''not enough values to unpack (expected 2, got 1)''))"
proof (intro conjI impI)
  assume "count_list (working_line line) CHR ''='' = 1"
  from py_split_one[OF this] show "parse_line line =
        (case parse_value (strip (after_first CHR ''='' (working_line line))) of
           Inl e \<Rightarrow> Inl e
         | Inr x \<Rightarrow> Inr (strip (before_first CHR ''='' (working_line line)), x, line_comment line))"
    unfolding parse_line_unfold before_first_def after_first_def by simp
next
  assume "count_list (working_line line) CHR ''='' > 1"
  then have "length (py_split ''='' (working_line line)) > 2" by (simp add: py_split_length)
  then show "parse_line line = Inl (ValueError ''too many values to unpack (expected 2)'')"
    unfolding parse_line_unfold by (rule length_ge3_unpack)
next
  assume "count_list (working_line line) CHR ''='' = 0"
  then have "py_split ''='' (working_line line) = [working_line line]"
    by (simp add: count_list_0_iff py_split_notin)
  then show "parse_line line = Inl (ValueError ''not enough values to unpack (expected 2, got 1)'')"
    unfolding parse_line_unfold by (simp add: unpack_error_1)
qed

theorem C7_witness:
  "count_list (working_line ''a = 1, ! note'') CHR ''='' = 1
   \<and> parse_line ''a = 1, ! note'' = Inr (''a'', VInt 1, ''note'')
   \<and> count_list (working_line (''a = 'x=y'' @ [SQ])) CHR ''='' > 1
   \<and> parse_line (''a = 'x=y'' @ [SQ]) = Inl (ValueError ''too many values to unpack (expected 2)'')
   \<and> count_list (working_line ''a'') CHR ''='' = 0
   \<and> parse_line ''a'' = Inl (ValueError ''not enough values to unpack (expected 2, got 1)'')"
  using C7_parse_line_one_equals_sign[of "''a = 1, ! note''"]
        C7_parse_line_one_equals_sign[of "''a = 'x=y'' @ [SQ]"]
        C7_parse_line_one_equals_sign[of "''a''"]
  by code_simp

text \<open>
  The line \<open>a = 'x=y'\<close> is refused although its value text \<open>'x=y'\<close> is a quoted string of
  the value grammar.
\<close>

theorem C7_counterexample:
  "parse_line (''a = 'x=y'' @ [SQ]) = Inl (ValueError ''too many values to unpack (expected 2)'')
   \<and> parse_value (SQ # ''x=y'' @ [SQ]) = Inr (VStr ''x=y'')"
  by code_simp


subsection \<open>C9: duplicate keys\<close>

text \<open>
  C9: when parsing succeeds, \<open>loads\<close> returns a mapping whose keys are distinct and are the
  flattened keys of the parsed records, and a record after which no record has the same
  flattened key (the last occurrence in text order) gives the key its value.
\<close>

theorem C9_loads_duplicate_keys:
  assumes "parse_nml s False = Inr params"
  shows "\<exists>d. loads sp s = Inr d \<and> distinct (map fst d)
          \<and> fst ` set d = (\<lambda>p. group p @ sp @ name p) ` set params
          \<and> (\<forall>pre p post. params = pre @ p # post
                 \<and> (\<forall>q \<in> set post. group q @ sp @ name q \<noteq> group p @ sp @ name p)
               \<longrightarrow> (group p @ sp @ name p, value' p) \<in> set d)"
proof -
  define flat :: "ParamNml \<Rightarrow> string \<times> pyvalue"
    where "flat = (\<lambda>p. (group p @ sp @ name p, value' p))"
  define d where "d = odict (map flat params)"
  have l: "loads sp s = Inr d" using assms by (simp add: loads_def d_def flat_def)
  have "distinct (map fst d)" unfolding d_def by (rule distinct_odict)
  moreover have "fst ` set d = (\<lambda>p. group p @ sp @ name p) ` set params"
    unfolding d_def keys_odict by (auto simp: flat_def image_iff)
  moreover have "(group p @ sp @ name p, value' p) \<in> set d"
    if "params = pre @ p # post" "\<forall>q \<in> set post. group q @ sp @ name q \<noteq> group p @ sp @ name p"
    for pre p post
  proof -
    have "map flat params = map flat pre @ (group p @ sp @ name p, value' p) # map flat post"
      using that(1) by (simp add: flat_def)
    moreover have "group p @ sp @ name p \<notin> fst ` set (map flat post)"
      using that(2) by (auto simp: flat_def)
    ultimately show ?thesis unfolding d_def by (rule odict_last_occurrence)
  qed
  ultimately show ?thesis using l by blast
qed

lemma dup_text_params:
  "parse_nml dup_text False =
     Inr [\<lparr>group = ''g'', name = ''a'', value' = VInt 1, help' = Some []\<rparr>,
          \<lparr>group = ''g'', name = ''a'', value' = VInt 2, help' = Some []\<rparr>,
          \<lparr>group = ''g'', name = ''b'', value' = VInt 1, help' = Some []\<rparr>,
          \<lparr>group = ''g'', name = ''a'', value' = VInt 3, help' = Some []\<rparr>]"
  by code_simp

theorem C9_witness:
  "parse_nml dup_text False =
     Inr [\<lparr>group = ''g'', name = ''a'', value' = VInt 1, help' = Some []\<rparr>,
          \<lparr>group = ''g'', name = ''a'', value' = VInt 2, help' = Some []\<rparr>,
          \<lparr>group = ''g'', name = ''b'', value' = VInt 1, help' = Some []\<rparr>,
          \<lparr>group = ''g'', name = ''a'', value' = VInt 3, help' = Some []\<rparr>]
   \<and> loads ''.'' dup_text = Inr [(''g.a'', VInt 3), (''g.b'', VInt 1)]
   \<and> (\<exists>d. loads ''.'' dup_text = Inr d \<and> distinct (map fst d) \<and> (''g.a'', VInt 3) \<in> set d)"
proof -
  have l: "loads ''.'' dup_text = Inr [(''g.a'', VInt 3), (''g.b'', VInt 1)]" by code_simp
  from C9_loads_duplicate_keys[OF dup_text_params, of "''.''"]
  obtain d where d: "loads ''.'' dup_text = Inr d" "distinct (map fst d)"
    by blast
  with l have "(''g.a'', VInt 3) \<in> set d" by simp
  with d l dup_text_params show ?thesis by blast
qed


subsection \<open>C10: the keys of \<open>param_map_groups\<close>\<close>




subsection \<open>C3: a group that is not terminated\<close>





end
